theory Spec2Isabelle
  imports Complex_Main
begin

section \<open>Python numbers and their operators\<close>

text \<open>
  The cycle calculation of \<^verbatim>\<open>app.py\<close> (\<^verbatim>\<open>calculate_gas_cycle\<close>, lines 21 to 30) is
  scalar arithmetic on Python numbers. It is read three times below. The first reading
  takes Python floats as real numbers: rounding, overflow, infinities and NaN are outside
  it, and an integer argument is the real number it denotes. What Python does beyond
  computing a real number is kept: a division by zero raises \<^verbatim>\<open>ZeroDivisionError\<close>, a
  negative base raised to a fractional power is a complex number, arithmetic on a complex
  number stays complex, and comparing a complex number with \<^verbatim>\<open>>\<close> raises
  \<^verbatim>\<open>TypeError\<close>. The second reading is the function as source text, run by an
  interpreter over a store of global and local names, for what the call does to state.
  The third rounds every float operation to a double, for the claims that turn on
  rounding.
\<close>


datatype error = ZeroDivisionError | TypeError | NameError

datatype pynum = PyFloat real | PyComplex complex

fun to_complex :: "pynum \<Rightarrow> complex" where
  "to_complex (PyFloat a) = of_real a"
| "to_complex (PyComplex c) = c"

definition and_then :: "error + 'a \<Rightarrow> ('a \<Rightarrow> error + 'b) \<Rightarrow> error + 'b" where
  "and_then r f = (case r of Inl e \<Rightarrow> Inl e | Inr v \<Rightarrow> f v)"

fun py_sub :: "pynum \<Rightarrow> pynum \<Rightarrow> pynum" where
  "py_sub (PyFloat a) (PyFloat b) = PyFloat (a - b)"
| "py_sub x y = PyComplex (to_complex x - to_complex y)"

fun py_mul :: "pynum \<Rightarrow> pynum \<Rightarrow> pynum" where
  "py_mul (PyFloat a) (PyFloat b) = PyFloat (a * b)"
| "py_mul x y = PyComplex (to_complex x * to_complex y)"

text \<open>True division \<^verbatim>\<open>/\<close>: a zero divisor, float or complex, raises.\<close>

definition float_truediv :: "real \<Rightarrow> real \<Rightarrow> error + real" where
  "float_truediv a b = (if b = 0 then Inl ZeroDivisionError else Inr (a / b))"

fun py_truediv :: "pynum \<Rightarrow> pynum \<Rightarrow> error + pynum" where
  "py_truediv (PyFloat a) (PyFloat b) = and_then (float_truediv a b) (\<lambda>q. Inr (PyFloat q))"
| "py_truediv x y =
     (if to_complex y = 0 then Inl ZeroDivisionError
      else Inr (PyComplex (to_complex x / to_complex y)))"

text \<open>
  The power \<^verbatim>\<open>iv ** iw\<close> of two floats, in the case order of CPython's
  \<^verbatim>\<open>float_pow\<close>: anything to the power 0 is 1; zero to a negative power raises and to a
  positive power is 0; a negative base with a fractional exponent is handed to the complex
  power, which computes in polar form with the argument \<open>pi\<close> of the negative base; a
  negative base with an integral exponent is the power of its absolute value, negated
  when the exponent is odd; a positive base is the real power.
\<close>

definition float_pow :: "real \<Rightarrow> real \<Rightarrow> error + pynum" where
  "float_pow iv iw =
     (if iw = 0 then Inr (PyFloat 1)
      else if iv = 0 then (if iw < 0 then Inl ZeroDivisionError else Inr (PyFloat 0))
      else if iv < 0 \<and> iw \<noteq> of_int \<lfloor>iw\<rfloor> then
        Inr (PyComplex (Complex ((\<bar>iv\<bar> powr iw) * cos (pi * iw)) ((\<bar>iv\<bar> powr iw) * sin (pi * iw))))
      else if iv < 0 then
        Inr (PyFloat (if odd \<lfloor>iw\<rfloor> then - (\<bar>iv\<bar> powr iw) else \<bar>iv\<bar> powr iw))
      else Inr (PyFloat (iv powr iw)))"

text \<open>The comparison \<^verbatim>\<open>x > y\<close>: complex numbers are not ordered.\<close>

fun py_gt :: "pynum \<Rightarrow> pynum \<Rightarrow> error + bool" where
  "py_gt (PyFloat a) (PyFloat b) = Inr (b < a)"
| "py_gt x y = Inl TypeError"

section \<open>The cycle calculation\<close>

text \<open>
  The subexpression \<^verbatim>\<open>p_ratio**((k-1)/k)\<close>, which lines 23 and 25 each evaluate: the
  exponent is a division of two floats, which raises for \<open>k = 0\<close>, and the power is
  that of two floats.
\<close>

definition pressure_term :: "real \<Rightarrow> real \<Rightarrow> error + pynum" where
  "pressure_term p_ratio k =
     and_then (float_truediv (k - 1) k) (\<lambda>exponent. float_pow p_ratio exponent)"

text \<open>The local variables of \<^verbatim>\<open>calculate_gas_cycle\<close> when its body has run (lines 23 to 29).\<close>

record frame =
  t2 :: pynum
  w_c :: pynum
  t4 :: pynum
  w_t :: pynum
  w_net :: pynum
  q_in :: pynum
  eff :: pynum

definition gas_cycle_body :: "real \<Rightarrow> real \<Rightarrow> real \<Rightarrow> real \<Rightarrow> real \<Rightarrow> error + frame" where
  "gas_cycle_body p_ratio t_max t_amb k cp =
     and_then (pressure_term p_ratio k) (\<lambda>pw23.
     let t2' = py_mul (PyFloat t_amb) pw23;
         w_c' = py_mul (PyFloat cp) (py_sub t2' (PyFloat t_amb)) in
     and_then (pressure_term p_ratio k) (\<lambda>pw25.
     and_then (py_truediv (PyFloat t_max) pw25) (\<lambda>t4'.
     let w_t' = py_mul (PyFloat cp) (py_sub (PyFloat t_max) t4');
         w_net' = py_sub w_t' w_c';
         q_in' = py_mul (PyFloat cp) (py_sub (PyFloat t_max) t2') in
     and_then (py_gt q_in' (PyFloat 0)) (\<lambda>positive.
     and_then
       (if positive
        then and_then (py_truediv w_net' q_in') (\<lambda>ratio. Inr (py_mul ratio (PyFloat 100)))
        else Inr (PyFloat 0)) (\<lambda>eff'.
     Inr \<lparr>t2 = t2', w_c = w_c', t4 = t4', w_t = w_t', w_net = w_net',
          q_in = q_in', eff = eff'\<rparr>)))))"

text \<open>Line 30 returns the tuple \<^verbatim>\<open>(w_net, eff, t2, t4)\<close>.\<close>

definition calculate_gas_cycle ::
  "real \<Rightarrow> real \<Rightarrow> real \<Rightarrow> real \<Rightarrow> real \<Rightarrow> error + (pynum \<times> pynum \<times> pynum \<times> pynum)" where
  "calculate_gas_cycle p_ratio t_max t_amb k cp =
     and_then (gas_cycle_body p_ratio t_max t_amb k cp)
       (\<lambda>s. Inr (w_net s, eff s, t2 s, t4 s))"

section \<open>The formula as the specification writes it\<close>

text \<open>
  The specification gives the algorithm in nine steps over real numbers, with
  \<open>pressure_ratio^exponent\<close> the real power. \<open>spec_power\<close> is that power wherever
  mathematics gives it a real value: 1 for the exponent 0, the exponential of the
  logarithm for a positive base, 0 for the base 0, and the integer power for a negative
  base with an integral exponent.
\<close>

definition spec_power :: "real \<Rightarrow> real \<Rightarrow> real" where
  "spec_power a b =
     (if b = 0 then 1 else if 0 < a then a powr b else if a = 0 then 0 else a powi \<lfloor>b\<rfloor>)"

text \<open>Steps 1 to 9 of the specification's algorithm, under the names it uses.\<close>

definition evaluate_spec :: "real \<Rightarrow> real \<Rightarrow> real \<Rightarrow> real \<Rightarrow> real \<Rightarrow> real \<times> real \<times> real \<times> real" where
  "evaluate_spec pressure_ratio turbine_inlet_temp ambient_temp k cp =
     (let exponent = (k - 1) / k;
          t2 = ambient_temp * spec_power pressure_ratio exponent;
          compressor_work = cp * (t2 - ambient_temp);
          t4 = turbine_inlet_temp / spec_power pressure_ratio exponent;
          turbine_work = cp * (turbine_inlet_temp - t4);
          net_work = turbine_work - compressor_work;
          heat_in = cp * (turbine_inlet_temp - t2);
          efficiency_percent = (if heat_in > 0 then (net_work / heat_in) * 100 else 0)
      in (net_work, efficiency_percent, t2, t4))"

section \<open>The function as source text\<close>

text \<open>
  The power of two numbers of which one is complex, as CPython's complex power computes
  it: 1 for the exponent 0; for the base 0 an error unless the exponent is real and
  positive; otherwise the polar form of the base raised to the exponent.
\<close>

definition complex_pow :: "complex \<Rightarrow> complex \<Rightarrow> error + pynum" where
  "complex_pow a b =
     (if b = 0 then Inr (PyComplex 1)
      else if a = 0 then
        (if Re b < 0 \<or> Im b \<noteq> 0 then Inl ZeroDivisionError else Inr (PyComplex 0))
      else Inr (PyComplex (of_real (cmod a powr Re b / exp (Arg a * Im b)) *
                           cis (Arg a * Re b + Im b * ln (cmod a)))))"

fun py_pow :: "pynum \<Rightarrow> pynum \<Rightarrow> error + pynum" where
  "py_pow (PyFloat iv) (PyFloat iw) = float_pow iv iw"
| "py_pow x y = complex_pow (to_complex x) (to_complex y)"

text \<open>
  The statements of lines 23 to 30 use four binary operators, names, numeric constants and
  one conditional expression whose test is a comparison with \<^verbatim>\<open>>\<close>. A statement binds a
  local name; a binding of a global name (Python's \<^verbatim>\<open>global\<close> declaration) is the other
  form a body could contain, and this one does not.
\<close>

datatype operator = OpSub | OpMult | OpDiv | OpPow

datatype expr =
    Name string
  | Constant real
  | BinOp expr operator expr
  | IfGt expr expr expr expr

datatype stmt = Assign string expr | AssignGlobal string expr

text \<open>
  A function definition: its required parameters, its parameters with defaults, its
  statements and the expressions of the tuple it returns.
\<close>

record funcdef =
  params :: "string list"
  defaults :: "(string \<times> real) list"
  body :: "stmt list"
  returns :: "expr list"

type_synonym env = "string \<rightharpoonup> pynum"

fun apply_op :: "operator \<Rightarrow> pynum \<Rightarrow> pynum \<Rightarrow> error + pynum" where
  "apply_op OpSub x y = Inr (py_sub x y)"
| "apply_op OpMult x y = Inr (py_mul x y)"
| "apply_op OpDiv x y = py_truediv x y"
| "apply_op OpPow x y = py_pow x y"

text \<open>
  A name that the function binds (a parameter or the target of an assignment in its body)
  is looked up among the locals, any other name among the globals; an unbound name
  raises. Operands are evaluated left to right, the test of a conditional before its
  branch.
\<close>

fun eval :: "string list \<Rightarrow> env \<Rightarrow> env \<Rightarrow> expr \<Rightarrow> error + pynum" where
  "eval ls g l (Name x) =
     (case (if x \<in> set ls then l x else g x) of None \<Rightarrow> Inl NameError | Some v \<Rightarrow> Inr v)"
| "eval ls g l (Constant c) = Inr (PyFloat c)"
| "eval ls g l (BinOp a op b) =
     and_then (eval ls g l a) (\<lambda>x. and_then (eval ls g l b) (\<lambda>y. apply_op op x y))"
| "eval ls g l (IfGt yes a b no) =
     and_then (eval ls g l a) (\<lambda>x. and_then (eval ls g l b) (\<lambda>y.
     and_then (py_gt x y) (\<lambda>test. if test then eval ls g l yes else eval ls g l no)))"

fun eval_tuple :: "string list \<Rightarrow> env \<Rightarrow> env \<Rightarrow> expr list \<Rightarrow> error + pynum list" where
  "eval_tuple ls g l [] = Inr []"
| "eval_tuple ls g l (e # es) =
     and_then (eval ls g l e) (\<lambda>v. and_then (eval_tuple ls g l es) (\<lambda>vs. Inr (v # vs)))"

text \<open>
  Running statements returns the global store as the statements left it, also when one of
  them raises, and the locals or the error.
\<close>

fun exec :: "string list \<Rightarrow> stmt list \<Rightarrow> env \<Rightarrow> env \<Rightarrow> env \<times> (error + env)" where
  "exec ls [] g l = (g, Inr l)"
| "exec ls (Assign x e # ss) g l =
     (case eval ls g l e of Inl err \<Rightarrow> (g, Inl err) | Inr v \<Rightarrow> exec ls ss g (l(x \<mapsto> v)))"
| "exec ls (AssignGlobal x e # ss) g l =
     (case eval ls g l e of Inl err \<Rightarrow> (g, Inl err) | Inr v \<Rightarrow> exec ls ss (g(x \<mapsto> v)) l)"

fun assigned :: "stmt \<Rightarrow> string list" where
  "assigned (Assign x e) = [x]"
| "assigned (AssignGlobal x e) = []"

definition local_names :: "funcdef \<Rightarrow> string list" where
  "local_names f = params f @ map fst (defaults f) @ concat (map assigned (body f))"

text \<open>
  A call binds the positional arguments to the parameters in order and fills the missing
  trailing ones from the defaults; too few or too many arguments raise \<^verbatim>\<open>TypeError\<close>.
\<close>

definition bind_args :: "funcdef \<Rightarrow> pynum list \<Rightarrow> error + env" where
  "bind_args f args =
     (let n = length (params f); m = length (defaults f) in
      if length args < n \<or> n + m < length args then Inl TypeError
      else Inr (map_of (zip (params f @ map fst (defaults f))
                  (args @ map (\<lambda>d. PyFloat (snd d)) (drop (length args - n) (defaults f))))))"

definition call :: "funcdef \<Rightarrow> env \<Rightarrow> pynum list \<Rightarrow> env \<times> (error + pynum list)" where
  "call f g args =
     (case bind_args f args of
        Inl err \<Rightarrow> (g, Inl err)
      | Inr l \<Rightarrow>
          (case exec (local_names f) (body f) g l of
             (g', Inl err) \<Rightarrow> (g', Inl err)
           | (g', Inr l') \<Rightarrow> (g', eval_tuple (local_names f) g' l' (returns f))))"

text \<open>
  Lines 21 to 30 of \<^verbatim>\<open>app.py\<close>. \<open>pressure_expr\<close> is the expression
  \<^verbatim>\<open>p_ratio**((k-1)/k)\<close> that lines 23 and 25 both contain.
\<close>

definition pressure_expr :: expr where
  "pressure_expr =
     BinOp (Name ''p_ratio'') OpPow
       (BinOp (BinOp (Name ''k'') OpSub (Constant 1)) OpDiv (Name ''k''))"

definition gas_cycle_source :: funcdef where
  "gas_cycle_source =
     \<lparr>params = [''p_ratio'', ''t_max'', ''t_amb''],
      defaults = [(''k'', 1.4), (''cp'', 1.005)],
      body =
        [Assign ''t2'' (BinOp (Name ''t_amb'') OpMult pressure_expr),
         Assign ''w_c'' (BinOp (Name ''cp'') OpMult (BinOp (Name ''t2'') OpSub (Name ''t_amb''))),
         Assign ''t4'' (BinOp (Name ''t_max'') OpDiv pressure_expr),
         Assign ''w_t'' (BinOp (Name ''cp'') OpMult (BinOp (Name ''t_max'') OpSub (Name ''t4''))),
         Assign ''w_net'' (BinOp (Name ''w_t'') OpSub (Name ''w_c'')),
         Assign ''q_in'' (BinOp (Name ''cp'') OpMult (BinOp (Name ''t_max'') OpSub (Name ''t2''))),
         Assign ''eff''
           (IfGt (BinOp (BinOp (Name ''w_net'') OpDiv (Name ''q_in'')) OpMult (Constant 100))
              (Name ''q_in'') (Constant 0) (Constant 0))],
      returns = [Name ''w_net'', Name ''eff'', Name ''t2'', Name ''t4'']\<rparr>"

text \<open>The names an expression reads, and the statements that read and bind locals only.\<close>

fun names :: "expr \<Rightarrow> string set" where
  "names (Name x) = {x}"
| "names (Constant c) = {}"
| "names (BinOp a op b) = names a \<union> names b"
| "names (IfGt yes a b no) = names yes \<union> names a \<union> names b \<union> names no"

fun reads_locals :: "string list \<Rightarrow> stmt \<Rightarrow> bool" where
  "reads_locals ls (Assign x e) = (names e \<subseteq> set ls)"
| "reads_locals ls (AssignGlobal x e) = False"

text \<open>The tuple of the first reading as the list the interpreter returns.\<close>

definition as_list :: "pynum \<times> pynum \<times> pynum \<times> pynum \<Rightarrow> pynum list" where
  "as_list r = (case r of (a, b, c, d) \<Rightarrow> [a, b, c, d])"

section \<open>The calculation on doubles\<close>

text \<open>
  A double has a significand of 53 bits. \<open>round_double\<close> rounds a real to the nearest
  such number, ties to the even significand; the exponent range is not bounded, so
  overflow to infinity, subnormal numbers and NaN are outside this reading too.
\<close>

definition nearest_even :: "real \<Rightarrow> int" where
  "nearest_even q =
     (let f = \<lfloor>q\<rfloor>; d = q - of_int f in
      if d < 1 / 2 then f else if 1 / 2 < d then f + 1 else if even f then f else f + 1)"

definition round_double :: "real \<Rightarrow> real" where
  "round_double x =
     (if x = 0 then 0
      else let u = 2 powr (of_int \<lfloor>log 2 \<bar>x\<bar>\<rfloor> - 52) in
        sgn x * (u * of_int (nearest_even (\<bar>x\<bar> / u))))"

text \<open>
  Every float operation returns the rounding of its exact result; the power is taken as
  correctly rounded. A complex value is kept as it is: none is ever returned, each ends in
  the \<^verbatim>\<open>TypeError\<close> of line 29.
\<close>

fun round_num :: "pynum \<Rightarrow> pynum" where
  "round_num (PyFloat x) = PyFloat (round_double x)"
| "round_num (PyComplex c) = PyComplex c"

definition rounded :: "error + pynum \<Rightarrow> error + pynum" where
  "rounded r = and_then r (\<lambda>v. Inr (round_num v))"

text \<open>The body of lines 23 to 30 once more, each operation rounded.\<close>

definition pressure_term_double :: "real \<Rightarrow> real \<Rightarrow> error + pynum" where
  "pressure_term_double p_ratio k =
     and_then (float_truediv (round_double (k - 1)) k)
       (\<lambda>exponent. rounded (float_pow p_ratio (round_double exponent)))"

definition gas_cycle_body_double :: "real \<Rightarrow> real \<Rightarrow> real \<Rightarrow> real \<Rightarrow> real \<Rightarrow> error + frame" where
  "gas_cycle_body_double p_ratio t_max t_amb k cp =
     and_then (pressure_term_double p_ratio k) (\<lambda>pw23.
     let t2' = round_num (py_mul (PyFloat t_amb) pw23);
         w_c' = round_num (py_mul (PyFloat cp) (round_num (py_sub t2' (PyFloat t_amb)))) in
     and_then (pressure_term_double p_ratio k) (\<lambda>pw25.
     and_then (rounded (py_truediv (PyFloat t_max) pw25)) (\<lambda>t4'.
     let w_t' = round_num (py_mul (PyFloat cp) (round_num (py_sub (PyFloat t_max) t4')));
         w_net' = round_num (py_sub w_t' w_c');
         q_in' = round_num (py_mul (PyFloat cp) (round_num (py_sub (PyFloat t_max) t2'))) in
     and_then (py_gt q_in' (PyFloat 0)) (\<lambda>positive.
     and_then
       (if positive
        then and_then (rounded (py_truediv w_net' q_in'))
               (\<lambda>ratio. Inr (round_num (py_mul ratio (PyFloat 100))))
        else Inr (PyFloat 0)) (\<lambda>eff'.
     Inr \<lparr>t2 = t2', w_c = w_c', t4 = t4', w_t = w_t', w_net = w_net',
          q_in = q_in', eff = eff'\<rparr>)))))"

definition calculate_gas_cycle_double ::
  "real \<Rightarrow> real \<Rightarrow> real \<Rightarrow> real \<Rightarrow> real \<Rightarrow> error + (pynum \<times> pynum \<times> pynum \<times> pynum)" where
  "calculate_gas_cycle_double p_ratio t_max t_amb k cp =
     and_then (gas_cycle_body_double p_ratio t_max t_amb k cp)
       (\<lambda>s. Inr (w_net s, eff s, t2 s, t4 s))"

section \<open>What the body computes\<close>

text \<open>
  The outcome of the call is decided by the value of \<^verbatim>\<open>p_ratio**((k-1)/k)\<close>: a nonzero
  float lets every line run, the float 0 stops line 25 with a division by zero, a complex
  number stops line 29 (or line 25, were it zero), and an error of the power itself stops
  line 23.
\<close>

lemma pressure_term_pos:
  "0 < p \<Longrightarrow> k \<noteq> 0 \<Longrightarrow> pressure_term p k = Inr (PyFloat (p powr ((k - 1) / k)))"
  by (simp add: pressure_term_def and_then_def float_truediv_def float_pow_def)

lemma body_float:
  assumes "pressure_term p k = Inr (PyFloat x)" and "x \<noteq> 0"
  shows "gas_cycle_body p tm ta k cp =
    Inr \<lparr>t2 = PyFloat (ta * x), w_c = PyFloat (cp * (ta * x - ta)), t4 = PyFloat (tm / x),
         w_t = PyFloat (cp * (tm - tm / x)),
         w_net = PyFloat (cp * (tm - tm / x) - cp * (ta * x - ta)),
         q_in = PyFloat (cp * (tm - ta * x)),
         eff = PyFloat (if 0 < cp * (tm - ta * x)
                 then (cp * (tm - tm / x) - cp * (ta * x - ta)) / (cp * (tm - ta * x)) * 100
                 else 0)\<rparr>"
  using assms by (simp add: gas_cycle_body_def and_then_def float_truediv_def Let_def)

lemma body_zero:
  assumes "pressure_term p k = Inr (PyFloat 0)"
  shows "gas_cycle_body p tm ta k cp = Inl ZeroDivisionError"
  using assms by (simp add: gas_cycle_body_def and_then_def float_truediv_def Let_def)

lemma body_complex:
  assumes "pressure_term p k = Inr (PyComplex c)"
  shows "gas_cycle_body p tm ta k cp = Inl (if c = 0 then ZeroDivisionError else TypeError)"
  using assms by (simp add: gas_cycle_body_def and_then_def float_truediv_def Let_def)

lemma body_error:
  assumes "pressure_term p k = Inl e"
  shows "gas_cycle_body p tm ta k cp = Inl e"
  using assms by (simp add: gas_cycle_body_def and_then_def float_truediv_def Let_def)

lemma calc_float:
  assumes "pressure_term p k = Inr (PyFloat x)" and "x \<noteq> 0"
  shows "calculate_gas_cycle p tm ta k cp =
    Inr (PyFloat (cp * (tm - tm / x) - cp * (ta * x - ta)),
         PyFloat (if 0 < cp * (tm - ta * x)
                 then (cp * (tm - tm / x) - cp * (ta * x - ta)) / (cp * (tm - ta * x)) * 100
                 else 0),
         PyFloat (ta * x), PyFloat (tm / x))"
  by (simp add: calculate_gas_cycle_def and_then_def body_float [OF assms])

lemma calc_returns:
  assumes "calculate_gas_cycle p tm ta k cp = Inr r"
  shows "\<exists>x. x \<noteq> 0 \<and> pressure_term p k = Inr (PyFloat x)"
proof (cases "pressure_term p k")
  case (Inl e)
  with assms show ?thesis
    by (simp add: calculate_gas_cycle_def and_then_def body_error)
next
  case (Inr v)
  show ?thesis
  proof (cases v)
    case (PyFloat x)
    with Inr assms show ?thesis
      by (cases "x = 0") (simp_all add: calculate_gas_cycle_def and_then_def body_zero)
  next
    case (PyComplex c)
    with Inr assms show ?thesis
      by (simp add: calculate_gas_cycle_def and_then_def body_complex)
  qed
qed

lemma float_pow_zero: "0 < iw \<Longrightarrow> float_pow 0 iw = Inr (PyFloat 0)"
  by (simp add: float_pow_def)


text \<open>The float power of a negative base with an integral exponent is the integer power.\<close>

lemma negative_base_power:
  fixes iv iw :: real
  assumes "iv < 0" and "iw = of_int \<lfloor>iw\<rfloor>"
  shows "(if odd \<lfloor>iw\<rfloor> then - (\<bar>iv\<bar> powr iw) else \<bar>iv\<bar> powr iw) = iv powi \<lfloor>iw\<rfloor>"
proof -
  have "\<bar>iv\<bar> powr iw = \<bar>iv\<bar> powr of_int \<lfloor>iw\<rfloor>"
    using assms(2) by simp
  also have "\<dots> = \<bar>iv\<bar> powi \<lfloor>iw\<rfloor>"
    using assms(1) by (intro powr_real_of_int') auto
  finally have a: "\<bar>iv\<bar> powr iw = \<bar>iv\<bar> powi \<lfloor>iw\<rfloor>" .
  have "iv powi \<lfloor>iw\<rfloor> = (- \<bar>iv\<bar>) powi \<lfloor>iw\<rfloor>"
    using assms(1) by simp
  also have "\<dots> = (if even \<lfloor>iw\<rfloor> then \<bar>iv\<bar> powi \<lfloor>iw\<rfloor> else - (\<bar>iv\<bar> powi \<lfloor>iw\<rfloor>))"
    by (rule power_int_minus_left)
  finally show ?thesis using a by simp
qed

lemma pressure_term_spec:
  assumes "pressure_term p k = Inr (PyFloat x)"
  shows "x = spec_power p ((k - 1) / k)"
proof (cases "p < 0 \<and> (k - 1) / k = of_int \<lfloor>(k - 1) / k\<rfloor> \<and> (k - 1) / k \<noteq> 0")
  case True
  then have "(if odd \<lfloor>(k - 1) / k\<rfloor> then - (\<bar>p\<bar> powr ((k - 1) / k)) else \<bar>p\<bar> powr ((k - 1) / k))
      = p powi \<lfloor>(k - 1) / k\<rfloor>"
    by (intro negative_base_power) simp_all
  with True assms show ?thesis
    by (simp add: pressure_term_def and_then_def float_truediv_def float_pow_def spec_power_def
        split: if_splits)
next
  case False
  with assms show ?thesis
    by (auto simp: pressure_term_def and_then_def float_truediv_def float_pow_def spec_power_def
        split: if_splits)
qed

section \<open>Arithmetic of the scenarios\<close>

text \<open>
  The efficiency of the ideal cycle, and the numbers of the specification's scenario 1:
  with \<open>k = 1.4\<close> the exponent is \<open>2/7\<close>, and \<open>12 powr (2/7)\<close> is the seventh root of
  144, which lies between 2.0339 and 2.034.
\<close>

lemma efficiency_ratio:
  fixes x :: real
  assumes "x \<noteq> 0" and "cp * (tm - ta * x) \<noteq> 0"
  shows "(cp * (tm - tm / x) - cp * (ta * x - ta)) / (cp * (tm - ta * x)) = 1 - 1 / x"
proof -
  have "cp * (tm - tm / x) - cp * (ta * x - ta) = (1 - 1 / x) * (cp * (tm - ta * x))"
    using assms(1) by (simp add: field_simps)
  then show ?thesis using assms(2) by simp
qed



lemma scenario_exponent: "((1.4::real) - 1) / 1.4 = 2 / 7"
  by simp

lemma root_16: "(16::real) powr ((2 - 1) / 2) = 4"
proof -
  have "(16::real) = 4 powr 2" by simp
  then have "(16::real) powr (1 / 2) = 4 powr 1" by (simp only: powr_powr) simp
  then show ?thesis by simp
qed

lemma twelve_as_root: "(12::real) powr (2 / 7) = 144 powr (1 / 7)"
proof -
  have "(144::real) = 12 powr 2" by simp
  then show ?thesis by (simp only: powr_powr) simp
qed

lemma twelve_root_lower: "(2.0339::real) < 12 powr (2 / 7)"
proof -
  have "(2.0339::real) = (2.0339 ^ 7) powr (1 / 7)"
    by (simp add: powr_powr flip: powr_numeral)
  moreover have "((2.0339::real) ^ 7) powr (1 / 7) < 144 powr (1 / 7)"
    by (rule powr_less_mono2) (simp_all add: power_divide)
  ultimately show ?thesis by (simp only: twelve_as_root)
qed

lemma twelve_root_upper: "12 powr (2 / 7) < (2.034::real)"
proof -
  have "(2.034::real) = (2.034 ^ 7) powr (1 / 7)"
    by (simp add: powr_powr flip: powr_numeral)
  moreover have "(144::real) powr (1 / 7) < (2.034 ^ 7) powr (1 / 7)"
    by (rule powr_less_mono2) (simp_all add: power_divide)
  ultimately show ?thesis by (simp only: twelve_as_root)
qed

lemma scenario_term: "pressure_term 12 1.4 = Inr (PyFloat (12 powr (2 / 7)))"
proof -
  have "pressure_term 12 1.4 = Inr (PyFloat (12 powr ((1.4 - 1) / 1.4)))"
    by (rule pressure_term_pos) simp_all
  then show ?thesis by (simp only: scenario_exponent)
qed

lemma scenario_heat: "0 < (1.005::real) * (1350 - 298 * 12 powr (2 / 7))"
  using twelve_root_upper by simp

lemma scenario_value:
  "calculate_gas_cycle 12 1350 298 1.4 1.005 =
     Inr (PyFloat (1.005 * (1350 - 1350 / 12 powr (2 / 7)) - 1.005 * (298 * 12 powr (2 / 7) - 298)),
          PyFloat ((1 - 1 / 12 powr (2 / 7)) * 100),
          PyFloat (298 * 12 powr (2 / 7)), PyFloat (1350 / 12 powr (2 / 7)))"
proof -
  let ?x = "(12::real) powr (2 / 7)"
  have nz: "?x \<noteq> 0" by simp
  have h: "(1.005::real) * (1350 - 298 * ?x) \<noteq> 0" using scenario_heat by simp
  show ?thesis
    unfolding calc_float [OF scenario_term nz] efficiency_ratio [OF nz h]
    by (simp only: scenario_heat if_True)
qed

lemma scenario_arith:
  fixes x y :: real
  assumes "2.0339 < x" and "x < 2.034" and "0.49164 < y" and "y < 0.49167"
  shows "606.1 < 298 * x" and "298 * x < 606.2"
    and "663.7 < 1350 * y" and "1350 * y < 663.8"
    and "380 < 1.005 * (1350 - 1350 * y) - 1.005 * (298 * x - 298)"
    and "1.005 * (1350 - 1350 * y) - 1.005 * (298 * x - 298) < 381"
    and "50.8 < (1 - y) * 100" and "(1 - y) * 100 < 50.9"
  using assms by (simp_all add: algebra_simps)

lemma scenario_bounds:
  fixes x :: real
  assumes "2.0339 < x" and "x < 2.034"
  shows "606.1 < 298 * x" and "298 * x < 606.2"
    and "663.7 < 1350 / x" and "1350 / x < 663.8"
    and "380 < 1.005 * (1350 - 1350 / x) - 1.005 * (298 * x - 298)"
    and "1.005 * (1350 - 1350 / x) - 1.005 * (298 * x - 298) < 381"
    and "50.8 < (1 - 1 / x) * 100" and "(1 - 1 / x) * 100 < 50.9"
proof -
  have pos: "0 < x" using assms(1) by simp
  have c: "0.49164 < 1 / x" using assms pos by (simp add: pos_less_divide_eq)
  have d: "1 / x < 0.49167" using assms pos by (simp add: pos_divide_less_eq)
  have y: "1350 / x = 1350 * (1 / x)" by simp
  note b = scenario_arith [OF assms c d]
  show "606.1 < 298 * x" by (rule b)
  show "298 * x < 606.2" by (rule b)
  show "663.7 < 1350 / x" unfolding y by (rule b)
  show "1350 / x < 663.8" unfolding y by (rule b)
  show "380 < 1.005 * (1350 - 1350 / x) - 1.005 * (298 * x - 298)"
    unfolding y by (rule b)
  show "1.005 * (1350 - 1350 / x) - 1.005 * (298 * x - 298) < 381"
    unfolding y by (rule b)
  show "50.8 < (1 - 1 / x) * 100" by (rule b)
  show "(1 - 1 / x) * 100 < 50.9" by (rule b)
qed

section \<open>What the interpreter does with the body\<close>

text \<open>
  An expression that reads only local names has the same value whatever the globals are,
  and statements that read and bind only locals leave the globals as they were.
\<close>

lemma eval_locals:
  "names e \<subseteq> set ls \<Longrightarrow> eval ls g l e = eval ls g' l e"
  by (induction e) (simp_all cong: if_cong)

lemma eval_tuple_locals:
  "list_all (\<lambda>e. names e \<subseteq> set ls) es \<Longrightarrow> eval_tuple ls g l es = eval_tuple ls g' l es"
  by (induction es) (simp_all add: eval_locals [of _ ls g _ g'])

lemma exec_locals:
  "list_all (reads_locals ls) ss \<Longrightarrow>
     exec ls ss g l = (g, snd (exec ls ss g' l))"
proof (induction ss arbitrary: l)
  case Nil
  then show ?case by simp
next
  case (Cons s ss)
  show ?case
  proof (cases s)
    case (Assign x e)
    with Cons.prems have n: "names e \<subseteq> set ls" and r: "list_all (reads_locals ls) ss"
      by simp_all
    have e: "eval ls g l e = eval ls g' l e" by (rule eval_locals [OF n])
    show ?thesis
    proof (cases "eval ls g' l e")
      case (Inl err)
      with e show ?thesis by (simp add: Assign)
    next
      case (Inr v)
      with e Cons.IH [OF r, of "l(x \<mapsto> v)"] show ?thesis by (simp only: Assign exec.simps sum.case)
    qed
  next
    case (AssignGlobal x e)
    with Cons.prems show ?thesis by simp
  qed
qed


lemma source_reads_locals:
  "list_all (reads_locals (local_names gas_cycle_source)) (body gas_cycle_source)"
  "list_all (\<lambda>e. names e \<subseteq> set (local_names gas_cycle_source)) (returns gas_cycle_source)"
  by (simp_all add: gas_cycle_source_def local_names_def pressure_expr_def)

lemma call_pure:
  assumes "list_all (reads_locals (local_names f)) (body f)"
    and "list_all (\<lambda>e. names e \<subseteq> set (local_names f)) (returns f)"
  shows "call f g args = (g, snd (call f g' args))"
proof (cases "bind_args f args")
  case (Inl err)
  then show ?thesis by (simp add: call_def)
next
  case (Inr l)
  obtain r where r: "exec (local_names f) (body f) g' l = (g', r)"
    using exec_locals [OF assms(1), of g' l g'] by simp
  with exec_locals [OF assms(1), of g l g']
  have x: "exec (local_names f) (body f) g l = (g, r)" by simp
  show ?thesis
    using eval_tuple_locals [OF assms(2), of g _ g']
    by (cases r) (simp_all add: call_def Inr r x)
qed


lemma eval_pressure:
  assumes "''p_ratio'' \<in> set ls" and "''k'' \<in> set ls"
    and "l ''p_ratio'' = Some (PyFloat p)" and "l ''k'' = Some (PyFloat k)"
  shows "eval ls g l pressure_expr = pressure_term p k"
  using assms
  by (simp add: pressure_expr_def pressure_term_def and_then_def float_truediv_def)

lemma call_is_shallow:
  "call gas_cycle_source g [PyFloat p, PyFloat tm, PyFloat ta, PyFloat k, PyFloat cp] =
     (g, map_sum id as_list (calculate_gas_cycle p tm ta k cp))"
proof (cases "pressure_term p k")
  case (Inl err)
  then show ?thesis
    by (simp add: call_def bind_args_def gas_cycle_source_def local_names_def
        calculate_gas_cycle_def gas_cycle_body_def and_then_def eval_pressure)
next
  case (Inr v)
  then show ?thesis
    by (simp add: call_def bind_args_def gas_cycle_source_def local_names_def
        calculate_gas_cycle_def gas_cycle_body_def and_then_def eval_pressure Let_def as_list_def
        split: sum.splits)
qed

lemma call_defaults:
  "call gas_cycle_source g [PyFloat p, PyFloat tm, PyFloat ta] =
     call gas_cycle_source g [PyFloat p, PyFloat tm, PyFloat ta, PyFloat 1.4, PyFloat 1.005]"
  by (simp add: call_def bind_args_def gas_cycle_source_def)

text \<open>
  The interpreter tells a body that is not of this kind: one that binds a global name
  leaves it in the store, and one that reads a global name returns what the store holds.
\<close>

lemma global_binding_shows:
  "fst (call \<lparr>params = [], defaults = [], body = [AssignGlobal ''n'' (Constant 1)],
               returns = []\<rparr> Map.empty []) ''n'' = Some (PyFloat 1)"
  by (simp add: call_def bind_args_def local_names_def)

lemma global_read_shows:
  "snd (call \<lparr>params = [], defaults = [], body = [], returns = [Name ''n'']\<rparr>
          [''n'' \<mapsto> PyFloat v] []) = Inr [PyFloat v]"
  by (simp add: call_def bind_args_def local_names_def and_then_def)

section \<open>Rounding\<close>

text \<open>
  Rounding keeps the binade of a positive real, is monotone on positive reals, and leaves
  a real that is a double unchanged.
\<close>

lemma nearest_even_int: "nearest_even (of_int n) = n"
  by (simp add: nearest_even_def)

lemma nearest_even_floor: "\<lfloor>q\<rfloor> \<le> nearest_even q" "nearest_even q \<le> \<lfloor>q\<rfloor> + 1"
  by (simp_all add: nearest_even_def Let_def)

lemma nearest_even_mono:
  assumes "q \<le> q'"
  shows "nearest_even q \<le> nearest_even q'"
proof (cases "\<lfloor>q\<rfloor> = \<lfloor>q'\<rfloor>")
  case True
  with assms show ?thesis
    by (auto simp: nearest_even_def Let_def)
next
  case False
  with assms have "\<lfloor>q\<rfloor> + 1 \<le> \<lfloor>q'\<rfloor>" using floor_mono [OF assms] by linarith
  with nearest_even_floor(2) [of q] nearest_even_floor(1) [of q'] show ?thesis by linarith
qed

lemma binade:
  fixes x :: real
  assumes "0 < x"
  shows "2 powr of_int \<lfloor>log 2 x\<rfloor> \<le> x" and "x < 2 powr (of_int \<lfloor>log 2 x\<rfloor> + 1)"
proof -
  have "\<lfloor>log 2 x\<rfloor> = \<lfloor>log 2 x\<rfloor>" ..
  then have "2 powr of_int \<lfloor>log 2 x\<rfloor> \<le> x \<and> x < 2 powr of_int (\<lfloor>log 2 x\<rfloor> + 1)"
    using assms by (subst (asm) floor_log_eq_powr_iff) simp_all
  then show "2 powr of_int \<lfloor>log 2 x\<rfloor> \<le> x" and "x < 2 powr (of_int \<lfloor>log 2 x\<rfloor> + 1)"
    by simp_all
qed

lemma round_double_pos:
  assumes "0 < x"
  shows "round_double x =
    2 powr (of_int \<lfloor>log 2 x\<rfloor> - 52) * of_int (nearest_even (x / 2 powr (of_int \<lfloor>log 2 x\<rfloor> - 52)))"
  using assms by (simp add: round_double_def Let_def)

lemma round_double_binade:
  assumes "0 < x"
  shows "2 powr of_int \<lfloor>log 2 x\<rfloor> \<le> round_double x"
    and "round_double x \<le> 2 powr (of_int \<lfloor>log 2 x\<rfloor> + 1)"
proof -
  let ?e = "of_int \<lfloor>log 2 x\<rfloor> :: real"
  let ?u = "2 powr (?e - 52)"
  have u: "0 < ?u" by simp
  have lo: "2 powr ?e = ?u * 2 ^ 52" and hi: "2 powr (?e + 1) = ?u * 2 ^ 53"
    by (simp_all add: powr_diff powr_add)
  have "?u * 2 ^ 52 \<le> x" using binade(1) [OF assms] lo by simp
  then have "of_int (2 ^ 52) \<le> x / ?u" using u by (simp add: pos_le_divide_eq mult.commute)
  then have "nearest_even (of_int (2 ^ 52)) \<le> nearest_even (x / ?u)" by (rule nearest_even_mono)
  then have "(2::int) ^ 52 \<le> nearest_even (x / ?u)" by (simp only: nearest_even_int)
  then have "(of_int ((2::int) ^ 52) :: real) \<le> of_int (nearest_even (x / ?u))"
    by (simp only: of_int_le_iff)
  then have "(2::real) ^ 52 \<le> of_int (nearest_even (x / ?u))" by simp
  then have "?u * 2 ^ 52 \<le> ?u * of_int (nearest_even (x / ?u))"
    using u by (simp only: mult_le_cancel_left_pos)
  then show "2 powr ?e \<le> round_double x"
    by (simp only: lo round_double_pos [OF assms])
  have "x < ?u * 2 ^ 53" using binade(2) [OF assms] hi by simp
  then have "x / ?u \<le> of_int (2 ^ 53)" using u by (simp add: pos_divide_le_eq mult.commute)
  then have "nearest_even (x / ?u) \<le> nearest_even (of_int (2 ^ 53))" by (rule nearest_even_mono)
  then have "nearest_even (x / ?u) \<le> (2::int) ^ 53" by (simp only: nearest_even_int)
  then have "(of_int (nearest_even (x / ?u)) :: real) \<le> of_int ((2::int) ^ 53)"
    by (simp only: of_int_le_iff)
  then have "of_int (nearest_even (x / ?u)) \<le> (2::real) ^ 53" by simp
  then have "?u * of_int (nearest_even (x / ?u)) \<le> ?u * 2 ^ 53"
    using u by (simp only: mult_le_cancel_left_pos)
  then show "round_double x \<le> 2 powr (?e + 1)"
    by (simp only: hi round_double_pos [OF assms])
qed

lemma round_double_positive:
  assumes "0 < x"
  shows "0 < round_double x"
proof -
  have "(0::real) < 2 powr of_int \<lfloor>log 2 x\<rfloor>" by simp
  with round_double_binade(1) [OF assms] show ?thesis by linarith
qed

lemma round_double_mono:
  assumes "0 < x" and "x \<le> y"
  shows "round_double x \<le> round_double y"
proof -
  have y: "0 < y" using assms by linarith
  have "log 2 x \<le> log 2 y" using assms by simp
  then have le: "\<lfloor>log 2 x\<rfloor> \<le> \<lfloor>log 2 y\<rfloor>" by (rule floor_mono)
  show ?thesis
  proof (cases "\<lfloor>log 2 x\<rfloor> = \<lfloor>log 2 y\<rfloor>")
    case True
    let ?u = "2 powr (of_int \<lfloor>log 2 y\<rfloor> - 52) :: real"
    have u: "0 < ?u" by simp
    have "x / ?u \<le> y / ?u" using assms(2) u by (simp add: divide_right_mono)
    then have "nearest_even (x / ?u) \<le> nearest_even (y / ?u)" by (rule nearest_even_mono)
    then have "(of_int (nearest_even (x / ?u)) :: real) \<le> of_int (nearest_even (y / ?u))"
      by (simp only: of_int_le_iff)
    then have "?u * of_int (nearest_even (x / ?u)) \<le> ?u * of_int (nearest_even (y / ?u))"
      using u by (simp only: mult_le_cancel_left_pos)
    then show ?thesis
      by (simp only: round_double_pos [OF assms(1)] round_double_pos [OF y] True)
  next
    case False
    with le have "\<lfloor>log 2 x\<rfloor> + 1 \<le> \<lfloor>log 2 y\<rfloor>" by linarith
    then have "(of_int \<lfloor>log 2 x\<rfloor> :: real) + 1 \<le> of_int \<lfloor>log 2 y\<rfloor>" by linarith
    then have "(2::real) powr (of_int \<lfloor>log 2 x\<rfloor> + 1) \<le> 2 powr of_int \<lfloor>log 2 y\<rfloor>"
      by (intro powr_mono) simp_all
    with round_double_binade(2) [OF assms(1)] round_double_binade(1) [OF y]
    show ?thesis by linarith
  qed
qed


lemma round_double_zero: "round_double 0 = 0"
  by (simp add: round_double_def)

lemma round_double_exact:
  assumes "2 powr of_int e \<le> x" and "x < 2 powr (of_int e + 1)"
    and "x = 2 powr (of_int e - 52) * of_int n"
  shows "round_double x = x"
proof -
  let ?u = "2 powr (of_int e - 52) :: real"
  have "(0::real) < 2 powr of_int e" by simp
  with assms(1) have pos: "0 < x" by linarith
  have "2 powr of_int e \<le> x \<and> x < 2 powr of_int (e + 1)" using assms(1,2) by simp
  then have fl: "\<lfloor>log 2 x\<rfloor> = e"
    using pos by (subst floor_log_eq_powr_iff) simp_all
  have q: "x / ?u = of_int n" by (subst assms(3)) simp
  have "round_double x = ?u * of_int (nearest_even (x / ?u))"
    by (simp only: round_double_pos [OF pos] fl)
  also have "\<dots> = ?u * of_int n" by (simp only: q nearest_even_int)
  also have "\<dots> = x" by (rule assms(3) [symmetric])
  finally show ?thesis .
qed

lemma round_double_one: "round_double 1 = 1"
  by (rule round_double_exact [of 0 _ "2 ^ 52"]) (simp_all add: powr_neg_numeral)

lemma round_double_half: "round_double (1 / 2) = 1 / 2"
  by (rule round_double_exact [of "- 1" _ "2 ^ 52"]) (simp_all add: powr_neg_numeral)

lemma round_double_298: "round_double 298 = 298"
  by (rule round_double_exact [of 8 _ "298 * 2 ^ 44"]) (simp_all add: powr_neg_numeral)

lemma round_double_1350: "round_double 1350 = 1350"
  by (rule round_double_exact [of 10 _ "1350 * 2 ^ 42"]) (simp_all add: powr_neg_numeral)

lemma round_double_1052: "round_double 1052 = 1052"
  by (rule round_double_exact [of 10 _ "1052 * 2 ^ 42"]) (simp_all add: powr_neg_numeral)

lemma nearest_even_below:
  assumes "of_int n \<le> q" and "q < of_int n + 1 / 2"
  shows "nearest_even q = n"
proof -
  have f: "\<lfloor>q\<rfloor> = n" using assms by (intro floor_unique) simp_all
  have "q - of_int n < 1 / 2" using assms(2) by linarith
  then show ?thesis by (simp add: nearest_even_def Let_def f)
qed

lemma round_double_to_one:
  assumes "1 \<le> y" and "y < 1 + 1 / 2 ^ 53"
  shows "round_double y = 1"
proof -
  have pos: "0 < y" using assms(1) by linarith
  have "y < 2" using assms(2) by (simp add: field_simps) 
  then have "2 powr of_int 0 \<le> y \<and> y < 2 powr of_int (0 + 1)" using assms(1) by simp
  then have fl: "\<lfloor>log 2 y\<rfloor> = 0"
    using pos by (subst floor_log_eq_powr_iff) simp_all
  have u: "(2::real) powr (of_int 0 - 52) = 1 / 2 ^ 52" by (simp add: powr_neg_numeral)
  have q: "y / (1 / 2 ^ 52) = y * 2 ^ 52" by simp
  have lo: "of_int (2 ^ 52) \<le> y * 2 ^ 52" using assms(1) by simp
  have hi: "y * 2 ^ 52 < of_int (2 ^ 52) + 1 / 2" using assms(2) by (simp add: field_simps)
  have "nearest_even (y * 2 ^ 52) = 2 ^ 52"
    using lo hi by (rule nearest_even_below)
  then show ?thesis
    by (simp only: round_double_pos [OF pos] fl u q) simp
qed

lemma sqrt_one_plus:
  fixes x :: real
  assumes "0 < x"
  shows "(1 + x) powr (1 / 2) < 1 + x / 2"
proof -
  have "1 + x < (1 + x / 2)\<^sup>2" using assms by (simp add: power2_eq_square algebra_simps)
  then have "sqrt (1 + x) < 1 + x / 2" using assms by (intro real_less_lsqrt) simp_all
  then show ?thesis using assms by (simp add: powr_half_sqrt)
qed


lemma pressure_term_double_pos:
  assumes "0 < p" and "k \<noteq> 0"
  shows "pressure_term_double p k =
    Inr (PyFloat (round_double (p powr round_double (round_double (k - 1) / k))))"
  using assms
  by (simp add: pressure_term_double_def rounded_def and_then_def float_truediv_def float_pow_def)

lemma calc_double_float:
  assumes "pressure_term_double p k = Inr (PyFloat x)" and "x \<noteq> 0"
  shows "calculate_gas_cycle_double p tm ta k cp =
    (let a = round_double (ta * x);
         b = round_double (tm / x);
         wn = round_double (round_double (cp * round_double (tm - b)) -
                round_double (cp * round_double (a - ta)));
         q = round_double (cp * round_double (tm - a))
     in Inr (PyFloat wn,
             PyFloat (if 0 < q then round_double (round_double (wn / q) * 100) else 0),
             PyFloat a, PyFloat b))"
  using assms
  by (simp add: calculate_gas_cycle_double_def gas_cycle_body_double_def rounded_def
      and_then_def float_truediv_def Let_def)

lemma near_one_power:
  "round_double ((1 + 1 / 2 ^ 52) powr round_double (round_double (3 / 2 - 1) / (3 / 2))) = 1"
proof -
  let ?p = "1 + 1 / 2 ^ 52 :: real"
  let ?e = "round_double (1 / 3)"
  have e: "0 < ?e" by (rule round_double_positive) simp
  have "?e \<le> round_double (1 / 2)" by (rule round_double_mono) simp_all
  then have e2: "?e \<le> 1 / 2" by (simp only: round_double_half)
  have p: "1 \<le> ?p" by simp
  have lo: "1 \<le> ?p powr ?e" using p e by (intro ge_one_powr_ge_zero) simp_all
  have "?p powr ?e \<le> ?p powr (1 / 2)" using p e2 by (rule powr_mono [rotated])
  also have "\<dots> < 1 + (1 / 2 ^ 52) / 2" by (rule sqrt_one_plus) simp
  finally have hi: "?p powr ?e < 1 + 1 / 2 ^ 53" by simp
  have k: "round_double (3 / 2 - 1) / (3 / 2) = (1 / 3 :: real)"
  proof -
    have "(3 / 2 - 1 :: real) = 1 / 2" by simp
    then show ?thesis by (simp only: round_double_half) simp
  qed
  show ?thesis unfolding k by (rule round_double_to_one [OF lo hi])
qed






section \<open>The claims\<close>

text \<open>
  Claim C1. Whenever \<^verbatim>\<open>calculate_gas_cycle\<close> returns, the tuple it returns is the one the
  nine steps of the specification compute, in the order net work, efficiency, \<open>t2\<close>,
  \<open>t4\<close>.
\<close>

theorem calculate_gas_cycle_formula:
  assumes "calculate_gas_cycle p tm ta k cp = Inr r"
  shows "r = (case evaluate_spec p tm ta k cp of
               (net_work, efficiency_percent, a, b) \<Rightarrow>
                 (PyFloat net_work, PyFloat efficiency_percent, PyFloat a, PyFloat b))"
proof -
  from calc_returns [OF assms] obtain x
    where x: "x \<noteq> 0" "pressure_term p k = Inr (PyFloat x)" by blast
  have s: "spec_power p ((k - 1) / k) = x"
    using pressure_term_spec [OF x(2)] by simp
  show ?thesis
    using assms by (auto simp add: calc_float [OF x(2) x(1)] evaluate_spec_def s Let_def)
qed

text \<open>Claim C1 at scenario 1, where the call returns.\<close>

theorem calculate_gas_cycle_formula_witness:
  "calculate_gas_cycle 12 1350 298 1.4 1.005 =
     Inr (case evaluate_spec 12 1350 298 1.4 1.005 of
           (net_work, efficiency_percent, a, b) \<Rightarrow>
             (PyFloat net_work, PyFloat efficiency_percent, PyFloat a, PyFloat b))"
proof -
  have "pressure_term 12 1.4 = Inr (PyFloat (12 powr ((1.4 - 1) / 1.4)))"
    by (rule pressure_term_pos) simp_all
  from calc_float [OF this, of 1350 298 "1.005"]
  obtain r where r: "calculate_gas_cycle 12 1350 298 1.4 1.005 = Inr r" by simp
  from calculate_gas_cycle_formula [OF r] r show ?thesis by simp
qed

text \<open>
  Claim C2. Whenever the call returns, it returns four floats, and if the heat input
  \<open>cp * (t_max - t2)\<close> is not positive the efficiency is exactly 0: the division of
  line 29 is not evaluated.
\<close>

theorem nonpositive_heat_input:
  assumes "calculate_gas_cycle p tm ta k cp = Inr r"
  shows "\<exists>wn ef a b. r = (PyFloat wn, PyFloat ef, PyFloat a, PyFloat b) \<and>
           (cp * (tm - a) \<le> 0 \<longrightarrow> ef = 0)"
proof -
  from calc_returns [OF assms] obtain x
    where x: "x \<noteq> 0" "pressure_term p k = Inr (PyFloat x)" by blast
  from assms show ?thesis
    unfolding calc_float [OF x(2) x(1)] by auto
qed

text \<open>
  Claim C2 at a pressure ratio of 16 and \<open>k = 2\<close>, which bring \<open>t2\<close> to 1192 K, above a
  turbine inlet temperature of 1000 K.
\<close>

theorem nonpositive_heat_input_witness:
  "calculate_gas_cycle 16 1000 298 2 1 =
     Inr (PyFloat (- 144), PyFloat 0, PyFloat 1192, PyFloat 250) \<and>
   (1::real) * (1000 - 1192) \<le> 0"
proof -
  have "pressure_term 16 2 = Inr (PyFloat (16 powr ((2 - 1) / 2)))"
    by (rule pressure_term_pos) simp_all
  then have pt: "pressure_term 16 2 = Inr (PyFloat 4)"
    by (simp only: root_16)
  have four: "(4::real) \<noteq> 0" by simp
  have c: "calculate_gas_cycle 16 1000 298 2 1 =
     Inr (PyFloat (- 144), PyFloat 0, PyFloat 1192, PyFloat 250)"
    unfolding calc_float [OF pt four] by simp
  from nonpositive_heat_input [OF c] show ?thesis using c by simp
qed

text \<open>
  Claim C3 says that \<open>t2\<close> is strictly above the ambient temperature and \<open>t4\<close> strictly
  below the turbine inlet temperature whenever \<open>p_ratio > 1\<close>, \<open>k > 1\<close> and
  \<open>t_max > t_amb > 0\<close>. On doubles the power of a pressure ratio just above 1 rounds to
  1: at the successor of 1, with \<open>k = 1.5\<close> and \<open>cp = 1\<close>, the call returns \<open>t2 = 298\<close>
  and \<open>t4 = 1350\<close>, the two temperatures it was given.
\<close>

theorem rounded_power_counterexample:
  "calculate_gas_cycle_double (1 + 1 / 2 ^ 52) 1350 298 (3 / 2) 1 =
     Inr (PyFloat 0, PyFloat 0, PyFloat 298, PyFloat 1350)"
proof -
  have "pressure_term_double (1 + 1 / 2 ^ 52) (3 / 2) =
      Inr (PyFloat (round_double ((1 + 1 / 2 ^ 52) powr
        round_double (round_double (3 / 2 - 1) / (3 / 2)))))"
    by (rule pressure_term_double_pos) simp_all
  then have pt: "pressure_term_double (1 + 1 / 2 ^ 52) (3 / 2) = Inr (PyFloat 1)"
    by (simp only: near_one_power)
  have one: "(1::real) \<noteq> 0" by simp
  show ?thesis
    unfolding calc_double_float [OF pt one]
    by (simp add: round_double_298 round_double_1350 round_double_1052 round_double_zero)
qed

text \<open>
  Claim C3, amended. With \<open>p_ratio > 1\<close>, \<open>k > 1\<close> and \<open>t_max > t_amb > 0\<close>, both
  temperatures doubles, the call returns, \<open>t2\<close> is not below the ambient temperature and
  \<open>t4\<close> not above the turbine inlet temperature.
\<close>

theorem temperatures_do_not_cross:
  assumes "1 < p" and "1 < k" and "ta < tm" and "0 < ta"
    and "round_double ta = ta" and "round_double tm = tm"
  shows "\<exists>wn ef a b. calculate_gas_cycle_double p tm ta k cp =
           Inr (PyFloat wn, PyFloat ef, PyFloat a, PyFloat b) \<and> ta \<le> a \<and> b \<le> tm"
proof -
  let ?e = "round_double (round_double (k - 1) / k)"
  let ?x = "round_double (p powr ?e)"
  have pt: "pressure_term_double p k = Inr (PyFloat ?x)"
    using assms(1,2) by (intro pressure_term_double_pos) simp_all
  have "0 < round_double (k - 1)" using assms(2) by (intro round_double_positive) simp
  then have "0 < round_double (k - 1) / k" using assms(2) by simp
  then have e: "0 < ?e" by (rule round_double_positive)
  have "1 < p powr ?e" using assms(1) e by (rule gr_one_powr)
  then have "round_double 1 \<le> ?x" by (intro round_double_mono) simp_all
  then have x: "1 \<le> ?x" by (simp only: round_double_one)
  then have nz: "?x \<noteq> 0" by linarith
  have tm: "0 < tm" using assms(3,4) by linarith
  have "ta * 1 \<le> ta * ?x" using x assms(4) by (intro mult_left_mono) simp_all
  then have "round_double ta \<le> round_double (ta * ?x)"
    using assms(4) by (intro round_double_mono) simp_all
  then have a: "ta \<le> round_double (ta * ?x)" by (simp only: assms(5))
  have q: "0 < tm / ?x" using tm x by simp
  have "tm / ?x \<le> tm / 1" using x tm by (intro divide_left_mono) simp_all
  then have "round_double (tm / ?x) \<le> round_double tm"
    using q by (intro round_double_mono) simp_all
  then have b: "round_double (tm / ?x) \<le> tm" by (simp only: assms(6))
  show ?thesis
    unfolding calc_double_float [OF pt nz] Let_def using a b by blast
qed

text \<open>Claim C3, amended, at the input where the strict claim fails.\<close>

theorem temperatures_do_not_cross_witness:
  "\<exists>wn ef a b. calculate_gas_cycle_double (1 + 1 / 2 ^ 52) 1350 298 (3 / 2) 1 =
           Inr (PyFloat wn, PyFloat ef, PyFloat a, PyFloat b) \<and> 298 \<le> a \<and> b \<le> 1350"
  using temperatures_do_not_cross [of "1 + 1 / 2 ^ 52" "3 / 2" 298 1350 1]
  by (simp add: round_double_298 round_double_1350)



text \<open>
  Claim C5 says that \<open>k = 1\<close> gives a zero denominator in the exponent and a fatal error.
  The denominator of \<^verbatim>\<open>(k-1)/k\<close> is \<open>k\<close>: at \<open>k = 1\<close> the exponent is 0, the power is 1
  and the call returns. With the other arguments of scenario 1 it returns net work 0,
  efficiency 0, \<open>t2 = 298\<close> and \<open>t4 = 1350\<close>.
\<close>

theorem unit_heat_ratio_counterexample:
  "calculate_gas_cycle 12 1350 298 1 1.005 =
     Inr (PyFloat 0, PyFloat 0, PyFloat 298, PyFloat 1350)"
proof -
  have pt: "pressure_term 12 1 = Inr (PyFloat 1)"
    by (simp add: pressure_term_def and_then_def float_truediv_def float_pow_def)
  show ?thesis by (simp add: calc_float [OF pt])
qed

text \<open>
  Claim C5, amended. For \<open>k = 1\<close> the call returns net work 0, efficiency 0, \<open>t2\<close> the
  ambient temperature and \<open>t4\<close> the turbine inlet temperature, for every pressure ratio;
  the zero denominator is at \<open>k = 0\<close>, where the call raises \<^verbatim>\<open>ZeroDivisionError\<close>.
\<close>

theorem zero_denominator_is_k_zero:
  "calculate_gas_cycle p tm ta 1 cp = Inr (PyFloat 0, PyFloat 0, PyFloat ta, PyFloat tm) \<and>
   calculate_gas_cycle p tm ta 0 cp = Inl ZeroDivisionError"
proof
  have pt: "pressure_term p 1 = Inr (PyFloat 1)"
    by (simp add: pressure_term_def and_then_def float_truediv_def float_pow_def)
  show "calculate_gas_cycle p tm ta 1 cp = Inr (PyFloat 0, PyFloat 0, PyFloat ta, PyFloat tm)"
    by (simp add: calc_float [OF pt])
  have "pressure_term p 0 = Inl ZeroDivisionError"
    by (simp add: pressure_term_def and_then_def float_truediv_def)
  then show "calculate_gas_cycle p tm ta 0 cp = Inl ZeroDivisionError"
    by (simp add: calculate_gas_cycle_def and_then_def body_error)
qed

text \<open>
  Claim C6. With \<open>p_ratio = 1\<close>, \<open>k > 1\<close> and positive temperatures the body runs to its
  end with \<open>t2\<close> the ambient temperature, \<open>t4\<close> the turbine inlet temperature, the
  compressor work \<open>w_c\<close> equal to 0 and the net work \<open>w_net\<close> equal to the turbine work
  \<open>w_t\<close>, and the call returns these locals.
\<close>

theorem unit_pressure_ratio:
  assumes "1 < k" and "0 < ta" and "0 < tm"
  shows "\<exists>s. gas_cycle_body 1 tm ta k cp = Inr s \<and>
           calculate_gas_cycle 1 tm ta k cp = Inr (w_net s, eff s, t2 s, t4 s) \<and>
           t2 s = PyFloat ta \<and> t4 s = PyFloat tm \<and> w_c s = PyFloat 0 \<and> w_net s = w_t s"
proof -
  have pt: "pressure_term 1 k = Inr (PyFloat 1)"
    using assms(1) pressure_term_pos [of 1 k] by simp
  show ?thesis
    by (simp add: calculate_gas_cycle_def and_then_def body_float [OF pt])
qed

text \<open>Claim C6 at the temperatures of scenario 1.\<close>

theorem unit_pressure_ratio_witness:
  "\<exists>s. gas_cycle_body 1 1350 298 1.4 1.005 = Inr s \<and>
           calculate_gas_cycle 1 1350 298 1.4 1.005 = Inr (w_net s, eff s, t2 s, t4 s) \<and>
           t2 s = PyFloat 298 \<and> t4 s = PyFloat 1350 \<and> w_c s = PyFloat 0 \<and> w_net s = w_t s"
  using unit_pressure_ratio [of "1.4" 298 1350 "1.005"] by simp

text \<open>
  Claim C7 gives \<open>t2\<close> as about 597.0 K, \<open>t4\<close> as about 673.9 K and the net work as some
  tens of kJ/kg. On scenario 1 the call returns the values below: \<open>t2\<close> is more than
  9 K above 597.0, \<open>t4\<close> more than 10 K below 673.9, and the net work above 100 kJ/kg.
\<close>

theorem scenario_one_counterexample:
  "calculate_gas_cycle 12 1350 298 1.4 1.005 =
     Inr (PyFloat (1.005 * (1350 - 1350 / 12 powr (2 / 7)) - 1.005 * (298 * 12 powr (2 / 7) - 298)),
          PyFloat ((1 - 1 / 12 powr (2 / 7)) * 100),
          PyFloat (298 * 12 powr (2 / 7)), PyFloat (1350 / 12 powr (2 / 7))) \<and>
   597.0 + 9 < (298::real) * 12 powr (2 / 7) \<and>
   (1350::real) / 12 powr (2 / 7) < 673.9 - 10 \<and>
   (100::real) < 1.005 * (1350 - 1350 / 12 powr (2 / 7)) - 1.005 * (298 * 12 powr (2 / 7) - 298)"
proof -
  note b = scenario_bounds [OF twelve_root_lower twelve_root_upper]
  have "597.0 + 9 < (298::real) * 12 powr (2 / 7)" using b(1) by linarith
  moreover have "(1350::real) / 12 powr (2 / 7) < 673.9 - 10" using b(4) by linarith
  moreover have "(100::real) <
      1.005 * (1350 - 1350 / 12 powr (2 / 7)) - 1.005 * (298 * 12 powr (2 / 7) - 298)"
    using b(5) by linarith
  ultimately show ?thesis using scenario_value by blast
qed

text \<open>
  Claim C7, amended. On scenario 1 the call returns \<open>t2\<close> between 606.1 and 606.2 K,
  \<open>t4\<close> between 663.7 and 663.8 K, a net work between 380 and 381 kJ/kg, and an
  efficiency between 50.8 and 50.9 percent, so strictly between 0 and 60.
\<close>

theorem scenario_one:
  "\<exists>wn ef a b. calculate_gas_cycle 12 1350 298 1.4 1.005 =
       Inr (PyFloat wn, PyFloat ef, PyFloat a, PyFloat b) \<and>
     606.1 < a \<and> a < 606.2 \<and> 663.7 < b \<and> b < 663.8 \<and>
     380 < wn \<and> wn < 381 \<and> 50.8 < ef \<and> ef < 50.9"
  by (intro exI conjI)
    (rule scenario_value scenario_bounds [OF twelve_root_lower twelve_root_upper])+

text \<open>
  Claim C8. Run as source text on any store of globals and any arguments, the call leaves
  the globals as they were, and its outcome (the tuple returned or the error raised) is
  the one it has on any other store: nothing a call did before can show in a later one,
  and equal arguments give equal outcomes. On five float arguments that outcome is the
  one of the first reading.
\<close>

theorem calculate_gas_cycle_pure:
  "fst (call gas_cycle_source g args) = g \<and>
   snd (call gas_cycle_source g args) = snd (call gas_cycle_source g' args) \<and>
   snd (call gas_cycle_source g [PyFloat p, PyFloat tm, PyFloat ta, PyFloat k, PyFloat cp]) =
     map_sum id as_list (calculate_gas_cycle p tm ta k cp)"
proof -
  note pure = call_pure [OF source_reads_locals]
  have "fst (call gas_cycle_source g args) = g"
    by (subst pure [of g args g']) simp
  moreover have "snd (call gas_cycle_source g args) = snd (call gas_cycle_source g' args)"
    by (subst pure [of g args g']) simp
  ultimately show ?thesis by (simp add: call_is_shallow)
qed

text \<open>
  Claim C10. For \<open>p_ratio = 0\<close> and \<open>k > 1\<close> the power of lines 23 and 25 is the float 0,
  so line 23 computes \<open>t2 = 0\<close>, the division of line 25 raises
  \<^verbatim>\<open>ZeroDivisionError\<close>, and that error is the outcome of the call.
\<close>

theorem zero_pressure_ratio:
  assumes "1 < k"
  shows "pressure_term 0 k = Inr (PyFloat 0) \<and>
         py_mul (PyFloat ta) (PyFloat 0) = PyFloat 0 \<and>
         py_truediv (PyFloat tm) (PyFloat 0) = Inl ZeroDivisionError \<and>
         calculate_gas_cycle 0 tm ta k cp = Inl ZeroDivisionError"
proof -
  have e: "0 < (k - 1) / k" using assms by simp
  have "k \<noteq> 0" using assms by simp
  then have d: "float_truediv (k - 1) k = Inr ((k - 1) / k)"
    by (simp add: float_truediv_def)
  have pt: "pressure_term 0 k = Inr (PyFloat 0)"
    unfolding pressure_term_def and_then_def d
    by (simp only: sum.case float_pow_zero [OF e])
  then show ?thesis
    by (simp add: calculate_gas_cycle_def and_then_def float_truediv_def body_zero)
qed

text \<open>Claim C10 at \<open>k = 1.4\<close> and the temperatures of scenario 1.\<close>

theorem zero_pressure_ratio_witness:
  "pressure_term 0 1.4 = Inr (PyFloat 0) \<and>
   py_mul (PyFloat 298) (PyFloat 0) = PyFloat 0 \<and>
   py_truediv (PyFloat 1350) (PyFloat 0) = Inl ZeroDivisionError \<and>
   calculate_gas_cycle 0 1350 298 1.4 1.005 = Inl ZeroDivisionError"
  using zero_pressure_ratio [of "1.4" 298 1350 "1.005"] by simp

end
